theory Spec2Isabelle
  imports Complex_Main "HOL-Library.AList" "HOL-Library.Multiset"
begin

section \<open>slack-job-monitor: the job loop, its statistics and the rate limiter\<close>

text \<open>
  The development embeds \<^verbatim>\<open>slack_job_monitor/__main__.py\<close> (class
  \<^verbatim>\<open>ProcessMonitor\<close>, function \<^verbatim>\<open>main\<close>) and the class
  \<^verbatim>\<open>RateLimiter\<close> of \<^verbatim>\<open>slack_wrapper.py\<close>.

  Conventions of the embedding:
  \<^item> Python floats that hold times (\<^verbatim>\<open>time.time()\<close> readings, CPU times) are
    real numbers: arithmetic is exact, and a division by zero is the exception
    \<^verbatim>\<open>ZeroDivisionError\<close>, written out as a branch. The statements proved on
    this model are about counters, statuses, tests for zero and order. The one
    statement that rounding decides, whether the totals depend on the order of the
    jobs, is examined with double-precision addition written out.
  \<^item> What the operating system does is an input: every reading of the clock, every
    sample of a process, every exit code and every exception raised by a library call
    is a value given to the function that consumes it.
  \<^item> Calls that act on the outside world (launching and terminating a child, posting to
    Slack) are appended to the field \<open>trace\<close> of the monitor, in program order.
  \<^item> An exception is a value of type \<open>exn\<close>; the monitor object survives a raise, so a
    function that can raise returns the exception together with the monitor.
\<close>

subsection \<open>Enumerations and exceptions\<close>

datatype MonitorStatus =
  STARTED | RUNNING | COMPLETED | COMPLETED_WITH_ERRORS | INTERRUPTED | CRASHED

datatype exn = ZeroDivisionError | ValueError | OSError | KeyboardInterrupt | UnboundLocalError

subsection \<open>\<^verbatim>\<open>RateLimiter\<close> (slack_wrapper.py, lines 11-21)\<close>

record RateLimiter =
  period_sec :: real
  last_ok :: real

definition RateLimiter_init :: "real \<Rightarrow> RateLimiter" where
  "RateLimiter_init p = \<lparr>period_sec = p, last_ok = 0\<rparr>"

text \<open>\<^verbatim>\<open>__call__\<close>; the argument \<open>now\<close> is the value \<^verbatim>\<open>time.time()\<close> returns.\<close>

definition RateLimiter_call :: "RateLimiter \<Rightarrow> real \<Rightarrow> bool \<times> RateLimiter" where
  "RateLimiter_call rl now =
     (if now - last_ok rl > period_sec rl
      then (True, rl\<lparr>last_ok := now\<rparr>)
      else (False, rl))"

subsection \<open>Process samples and the per-job table\<close>

text \<open>
  \<^verbatim>\<open>psutil\<close>'s \<^verbatim>\<open>pcputimes\<close>: only the fields the monitor reads. A
  \<^verbatim>\<open>psutil.Process\<close> is compared and hashed by its identity, here a number.
  \<^verbatim>\<open>proc_stats\<close> is a Python dict: an association list in insertion order, a
  store to an existing key keeping the key's place (\<open>AList.update\<close>).
\<close>

record pcputimes =
  user :: real
  system :: real

type_synonym process = nat

type_synonym proc_stats = "(process \<times> pcputimes) list"

text \<open>What \<^verbatim>\<open>pc.cpu_times()\<close> does: it returns, or raises \<^verbatim>\<open>psutil.Error\<close>.\<close>

datatype cpu_times_result = Times pcputimes | PsutilError

text \<open>
  Lines 95-101: one pass over the root and its descendants. The argument lists the
  members that the enumeration returned, each with the outcome of its
  \<^verbatim>\<open>cpu_times()\<close> call; \<^verbatim>\<open>except psutil.Error: pass\<close> is the second equation.
\<close>

fun sample_tree :: "(process \<times> cpu_times_result) list \<Rightarrow> proc_stats \<Rightarrow> proc_stats" where
  "sample_tree [] ps = ps"
| "sample_tree ((pc, PsutilError) # rest) ps = sample_tree rest ps"
| "sample_tree ((pc, Times t) # rest) ps = sample_tree rest (AList.update pc t ps)"

text \<open>
  Line 103: the argument of \<^verbatim>\<open>time.sleep\<close>. \<^verbatim>\<open>math.log10\<close> raises
  \<^verbatim>\<open>ValueError\<close> outside its domain, and \<^verbatim>\<open>time.sleep\<close> raises
  \<^verbatim>\<open>ValueError\<close> on a negative length.
\<close>

definition sleep_interval :: "real \<Rightarrow> exn + real" where
  "sleep_interval elapsed =
     (if elapsed + 1 \<le> 0 then Inl ValueError
      else if log 10 (elapsed + 1) < 0 then Inl ValueError
      else Inr (log 10 (elapsed + 1)))"

text \<open>
  One iteration of the \<^verbatim>\<open>while proc.poll() is None\<close> loop: the members sampled,
  and the clock read at line 103.
\<close>

record tick =
  members :: "(process \<times> cpu_times_result) list"
  clock :: real

text \<open>Lines 94-103. The list holds one tick for each time the child was found running.\<close>

fun poll_loop :: "real \<Rightarrow> tick list \<Rightarrow> proc_stats \<Rightarrow> exn + proc_stats" where
  "poll_loop job_start [] ps = Inr ps"
| "poll_loop job_start (tk # tks) ps =
     (case sleep_interval (clock tk - job_start) of
        Inl e \<Rightarrow> Inl e
      | Inr d \<Rightarrow> poll_loop job_start tks (sample_tree (members tk) ps))"


subsection \<open>\<^verbatim>\<open>ProcessMonitor\<close>\<close>

text \<open>
  The values \<^verbatim>\<open>get_stats_str\<close> renders. Rendering them as text (durations,
  rounding of the percentages) is left to the formatting library.
\<close>

record stats_str =
  shown_real_time :: real
  shown_completed :: nat
  shown_total :: nat
  completed_pct :: real
  shown_failed :: nat
  cpu_pct :: real
  shown_user_time :: real
  shown_system_time :: real

text \<open>
  Calls on the outside world: \<^verbatim>\<open>subprocess.Popen\<close> with the given tokens;
  \<^verbatim>\<open>proc.terminate()\<close> on the child launched with the given tokens (Python sends no
  signal when the child was already waited for); \<^verbatim>\<open>update_message\<close> under the given
  status, the body being \<open>None\<close> for the empty string; \<^verbatim>\<open>ping_user\<close>.
\<close>

datatype effect =
    Launch "string list"
  | Terminate "string list"
  | Post MonitorStatus "stats_str option"
  | Ping

text \<open>
  The attributes of the object, the trace, and \<open>proc\<close>: the local variable
  \<^verbatim>\<open>proc\<close> of \<^verbatim>\<open>run_jobs\<close>, that is the tokens of the child of the last
  \<^verbatim>\<open>Popen\<close> that returned, and \<open>None\<close> as long as the variable is unbound.
\<close>

record monitor =
  command :: "string list"
  args :: "string list"
  status :: MonitorStatus
  rate_limiter :: RateLimiter
  start :: real
  completed :: nat
  failed :: nat
  user_time :: real
  system_time :: real
  real_time :: real
  trace :: "effect list"
  proc :: "string list option"

text \<open>\<^verbatim>\<open>update_message\<close> (lines 48-58): the status line and the body go to Slack.\<close>

definition update_message :: "monitor \<Rightarrow> stats_str option \<Rightarrow> monitor" where
  "update_message m body = m\<lparr>trace := trace m @ [Post (status m) body]\<rparr>"

text \<open>\<^verbatim>\<open>monitor.slack.ping_user()\<close> (line 161).\<close>

definition ping_user :: "monitor \<Rightarrow> monitor" where
  "ping_user m = m\<lparr>trace := trace m @ [Ping]\<rparr>"

text \<open>\<^verbatim>\<open>__init__\<close> (lines 30-46); \<open>now\<close> is the clock read at line 39.\<close>

definition ProcessMonitor_init :: "string list \<Rightarrow> string list \<Rightarrow> real \<Rightarrow> monitor" where
  "ProcessMonitor_init cmd as now =
     update_message
       \<lparr>command = cmd, args = as, status = STARTED, rate_limiter = RateLimiter_init 4,
        start = now, completed = 0, failed = 0, user_time = 0, system_time = 0,
        real_time = 0, trace = [], proc = None\<rparr>
       None"

text \<open>
  \<^verbatim>\<open>get_stats_str\<close> (lines 69-78). Line 70 divides by \<^verbatim>\<open>len(self.args)\<close>, line 71
  by \<^verbatim>\<open>self.real_time\<close>; Python raises \<^verbatim>\<open>ZeroDivisionError\<close> on a zero divisor.
\<close>

definition get_stats_str :: "monitor \<Rightarrow> exn + stats_str" where
  "get_stats_str m =
     (if length (args m) = 0 then Inl ZeroDivisionError
      else if real_time m = 0 then Inl ZeroDivisionError
      else Inr
        \<lparr>shown_real_time = real_time m,
         shown_completed = completed m,
         shown_total = length (args m),
         completed_pct = real (completed m) / real (length (args m)) * 100,
         shown_failed = failed m,
         cpu_pct = (user_time m + system_time m) / real_time m * 100,
         shown_user_time = user_time m,
         shown_system_time = system_time m\<rparr>)"

subsection \<open>The job loop (\<^verbatim>\<open>run_jobs\<close>, lines 80-126)\<close>

text \<open>
  What happens to one job, as far as the loop body can see:
  \<^item> \<open>Exits job_start ticks returncode now gate_now\<close>: the child is launched, found
    running at each of the ticks, then waited for; \<open>now\<close> is the clock at line 111
    and \<open>gate_now\<close> the clock read by the rate limiter at line 113;
  \<^item> \<open>Interrupt_launching\<close>: \<^verbatim>\<open>KeyboardInterrupt\<close> is raised inside the
    \<^verbatim>\<open>try\<close> before \<^verbatim>\<open>Popen\<close> has returned (lines 85-91), so \<^verbatim>\<open>proc\<close> has
    not been assigned in this pass;
  \<^item> \<open>Interrupt_running\<close>: \<^verbatim>\<open>KeyboardInterrupt\<close> is raised after the launch and
    before \<^verbatim>\<open>proc.wait()\<close> returns, while the child runs;
  \<^item> \<open>Interrupt_reporting job_start ticks returncode now\<close>: the child has exited and
    the counters are updated (lines 105-111) when \<^verbatim>\<open>KeyboardInterrupt\<close> is raised
    at line 113;
  \<^item> \<open>Launch_fails\<close>: \<^verbatim>\<open>subprocess.Popen\<close> raises \<^verbatim>\<open>OSError\<close> (for instance
    \<^verbatim>\<open>FileNotFoundError\<close>: the command does not exist).
\<close>

datatype job_event =
    Exits real "tick list" int real real
  | Interrupt_launching
  | Interrupt_running
  | Interrupt_reporting real "tick list" int real
  | Launch_fails

text \<open>How one pass through the loop body ends.\<close>

datatype control = Next | Break | Raise exn

text \<open>Lines 105-111: the counters after a child has exited with \<open>rc\<close> and table \<open>ps\<close>.\<close>

definition account :: "monitor \<Rightarrow> int \<Rightarrow> proc_stats \<Rightarrow> real \<Rightarrow> monitor" where
  "account m rc ps now =
     m\<lparr>completed := completed m + 1,
       failed := failed m + (if rc \<noteq> 0 then 1 else 0),
       user_time := user_time m + sum_list (map (\<lambda>(pc, s). user s) ps),
       system_time := system_time m + sum_list (map (\<lambda>(pc, s). system s) ps),
       real_time := now - start m\<rparr>"

text \<open>
  Lines 84-118, one iteration. Only \<^verbatim>\<open>KeyboardInterrupt\<close> is caught (line 115);
  any other exception leaves the loop and \<^verbatim>\<open>run_jobs\<close>. The handler calls
  \<^verbatim>\<open>proc.terminate()\<close> on whatever \<^verbatim>\<open>proc\<close> holds: when the variable is unbound,
  line 116 raises \<^verbatim>\<open>UnboundLocalError\<close> inside the handler, which leaves
  \<^verbatim>\<open>run_jobs\<close> before line 117.
\<close>

fun run_job :: "string \<Rightarrow> job_event \<Rightarrow> monitor \<Rightarrow> control \<times> monitor" where
  "run_job arg Launch_fails m = (Raise OSError, m)"
| "run_job arg Interrupt_launching m =
     (case proc m of
        None \<Rightarrow> (Raise UnboundLocalError, m)
      | Some child \<Rightarrow>
          (Break, m\<lparr>trace := trace m @ [Terminate child], status := INTERRUPTED\<rparr>))"
| "run_job arg Interrupt_running m =
     (Break,
      m\<lparr>trace := trace m @ [Launch (command m @ [arg]), Terminate (command m @ [arg])],
        status := INTERRUPTED, proc := Some (command m @ [arg])\<rparr>)"
| "run_job arg (Interrupt_reporting job_start tks rc now) m =
     (let m1 = m\<lparr>trace := trace m @ [Launch (command m @ [arg])],
                  proc := Some (command m @ [arg])\<rparr> in
      case poll_loop job_start tks [] of
        Inl e \<Rightarrow> (Raise e, m1)
      | Inr ps \<Rightarrow>
          (let m2 = account m1 rc ps now in
           (Break,
            m2\<lparr>trace := trace m2 @ [Terminate (command m @ [arg])],
               status := INTERRUPTED\<rparr>)))"
| "run_job arg (Exits job_start tks rc now gate_now) m =
     (let m1 = m\<lparr>trace := trace m @ [Launch (command m @ [arg])],
                  proc := Some (command m @ [arg])\<rparr> in
      case poll_loop job_start tks [] of
        Inl e \<Rightarrow> (Raise e, m1)
      | Inr ps \<Rightarrow>
          (let m2 = account m1 rc ps now;
               (ok, rl) = RateLimiter_call (rate_limiter m2) gate_now;
               m3 = m2\<lparr>rate_limiter := rl\<rparr>
           in if ok
              then (case get_stats_str m3 of
                      Inl e \<Rightarrow> (Raise e, m3)
                    | Inr body \<Rightarrow> (Next, update_message m3 (Some body)))
              else (Next, m3)))"

text \<open>
  \<^verbatim>\<open>for arg in self.args\<close>: each argument comes with what happens to its job.
  \<open>Next\<close> as the result means the list was exhausted.
\<close>

fun job_loop :: "(string \<times> job_event) list \<Rightarrow> monitor \<Rightarrow> control \<times> monitor" where
  "job_loop [] m = (Next, m)"
| "job_loop ((arg, ev) # rest) m =
     (case run_job arg ev m of
        (Next, m') \<Rightarrow> job_loop rest m'
      | (Break, m') \<Rightarrow> (Break, m')
      | (Raise e, m') \<Rightarrow> (Raise e, m'))"

text \<open>Lines 120-125.\<close>

definition final_status :: "monitor \<Rightarrow> monitor" where
  "final_status m =
     (if completed m = length (args m)
      then (if failed m = 0 then m\<lparr>status := COMPLETED\<rparr>
            else m\<lparr>status := COMPLETED_WITH_ERRORS\<rparr>)
      else m)"

text \<open>
  \<^verbatim>\<open>run_jobs\<close>; \<open>now\<close> is the clock read at line 120. The result is the exception
  that left the method, if any, and the monitor as the method left it. On entry the local
  variable \<^verbatim>\<open>proc\<close> is unbound.
\<close>

definition run_jobs :: "monitor \<Rightarrow> (string \<times> job_event) list \<Rightarrow> real \<Rightarrow> exn option \<times> monitor" where
  "run_jobs m jobs now =
     (case job_loop jobs (m\<lparr>status := RUNNING, proc := None\<rparr>) of
        (Raise e, m1) \<Rightarrow> (Some e, m1)
      | (c, m1) \<Rightarrow>
          (let m2 = final_status (m1\<lparr>real_time := now - start m1\<rparr>) in
           case get_stats_str m2 of
             Inl e \<Rightarrow> (Some e, m2)
           | Inr body \<Rightarrow> (None, update_message m2 (Some body))))"

text \<open>
  \<^verbatim>\<open>main\<close> (lines 150-161), after the arguments are parsed. The bare
  \<^verbatim>\<open>except:\<close> catches every exception of \<^verbatim>\<open>run_jobs\<close>; an exception raised
  inside the handler leaves \<^verbatim>\<open>main\<close>.
\<close>

definition main :: "string list \<Rightarrow> (string \<times> job_event) list \<Rightarrow> real \<Rightarrow> real \<Rightarrow> exn option \<times> monitor" where
  "main cmd jobs t0 t_end =
     (case run_jobs (ProcessMonitor_init cmd (map fst jobs) t0) jobs t_end of
        (None, m) \<Rightarrow> (None, ping_user m)
      | (Some e, m) \<Rightarrow>
          (let m1 = m\<lparr>status := CRASHED\<rparr> in
           case get_stats_str m1 of
             Inl e' \<Rightarrow> (Some e', m1)
           | Inr body \<Rightarrow> (None, ping_user (update_message m1 (Some body)))))"

subsection \<open>Auxiliary notions for the statements\<close>

text \<open>The members of one enumeration whose \<^verbatim>\<open>cpu_times()\<close> call returned, in order.\<close>

fun sampled :: "(process \<times> cpu_times_result) list \<Rightarrow> (process \<times> pcputimes) list" where
  "sampled [] = []"
| "sampled ((pc, PsutilError) # rest) = sampled rest"
| "sampled ((pc, Times t) # rest) = (pc, t) # sampled rest"

text \<open>CPU times are counters: a sample is well formed when its times are not negative.\<close>

definition nonneg_result :: "cpu_times_result \<Rightarrow> bool" where
  "nonneg_result r =
     (case r of Times t \<Rightarrow> 0 \<le> user t \<and> 0 \<le> system t | PsutilError \<Rightarrow> True)"

definition nonneg_ticks :: "tick list \<Rightarrow> bool" where
  "nonneg_ticks tks =
     list_all (\<lambda>tk. list_all (\<lambda>(pc, r). nonneg_result r) (members tk)) tks"

definition nonneg_table :: "proc_stats \<Rightarrow> bool" where
  "nonneg_table ps = list_all (\<lambda>(pc, s). 0 \<le> user s \<and> 0 \<le> system s) ps"

fun nonneg_event :: "job_event \<Rightarrow> bool" where
  "nonneg_event (Exits job_start tks rc now gate_now) = nonneg_ticks tks"
| "nonneg_event (Interrupt_reporting job_start tks rc now) = nonneg_ticks tks"
| "nonneg_event Interrupt_launching = True"
| "nonneg_event Interrupt_running = True"
| "nonneg_event Launch_fails = True"

text \<open>
  The monitor of a run after \<open>k\<close> passes through the body of the loop of
  \<^verbatim>\<open>run_jobs\<close> (or as the loop left it, when it ended earlier).
\<close>

definition loop_state :: "string list \<Rightarrow> (string \<times> job_event) list \<Rightarrow> real \<Rightarrow> nat \<Rightarrow> monitor" where
  "loop_state cmd jobs t0 k =
     snd (job_loop (take k jobs)
            ((ProcessMonitor_init cmd (map fst jobs) t0)\<lparr>status := RUNNING\<rparr>))"

text \<open>
  A job that runs to its end without an exception, in a run started at clock \<open>t0\<close>: the
  clock read in the polling loop is never behind the start of the job, and the clock read
  at line 111 is not the one read at the start of the run.
\<close>

fun exits_cleanly :: "real \<Rightarrow> job_event \<Rightarrow> bool" where
  "exits_cleanly t0 (Exits job_start tks rc now gate_now) =
     (list_all (\<lambda>tk. job_start \<le> clock tk) tks \<and> now \<noteq> t0)"
| "exits_cleanly t0 Interrupt_launching = False"
| "exits_cleanly t0 Interrupt_running = False"
| "exits_cleanly t0 (Interrupt_reporting job_start tks rc now) = False"
| "exits_cleanly t0 Launch_fails = False"

text \<open>A job whose child exited with a status other than 0.\<close>

fun exit_failed :: "job_event \<Rightarrow> bool" where
  "exit_failed (Exits job_start tks rc now gate_now) = (rc \<noteq> 0)"
| "exit_failed Interrupt_launching = False"
| "exit_failed Interrupt_running = False"
| "exit_failed (Interrupt_reporting job_start tks rc now) = (rc \<noteq> 0)"
| "exit_failed Launch_fails = False"

text \<open>The table that the polling loop of a job leaves when the job is waited for.\<close>

fun exit_table :: "job_event \<Rightarrow> proc_stats" where
  "exit_table (Exits job_start tks rc now gate_now) = sample_tree (concat (map members tks)) []"
| "exit_table Interrupt_launching = []"
| "exit_table Interrupt_running = []"
| "exit_table (Interrupt_reporting job_start tks rc now) =
     sample_tree (concat (map members tks)) []"
| "exit_table Launch_fails = []"

subsection \<open>Lines 109-110 with the addition as a parameter\<close>

text \<open>
  The addition of two Python floats is the IEEE 754 binary64 addition: the exact sum,
  rounded to 53 significant bits, to the nearest value, ties to the even one.
  \<open>round_at e x\<close> rounds an \<open>x\<close> with \<open>2^e \<le> |x| < 2^(e+1)\<close>. Results outside the normal
  range (overflow, subnormal numbers) are not modelled.
\<close>

definition round_ties_even :: "real \<Rightarrow> int" where
  "round_ties_even x =
     (if x - of_int \<lfloor>x\<rfloor> < 1 / 2 then \<lfloor>x\<rfloor>
      else if x - of_int \<lfloor>x\<rfloor> > 1 / 2 then \<lfloor>x\<rfloor> + 1
      else if even \<lfloor>x\<rfloor> then \<lfloor>x\<rfloor> else \<lfloor>x\<rfloor> + 1)"

definition round_at :: "int \<Rightarrow> real \<Rightarrow> real" where
  "round_at e x = of_int (round_ties_even (x / 2 powi (e - 52))) * 2 powi (e - 52)"

definition double_round :: "real \<Rightarrow> real" where
  "double_round x = (if x = 0 then 0 else round_at \<lfloor>log 2 \<bar>x\<bar>\<rfloor> x)"

definition double_add :: "real \<Rightarrow> real \<Rightarrow> real" where
  "double_add x y = double_round (x + y)"

text \<open>
  \<^verbatim>\<open>sum(...)\<close> starts from 0 and adds the values from left to right; line 109 adds
  the sum of the user times of a job's table to \<^verbatim>\<open>self.user_time\<close>, line 110 does
  the same for the system times. \<open>totals add tables\<close> is what the two fields hold, starting
  from the 0.0 of the constructor, after jobs that leave the given tables, in order. With
  the exact addition it is what \<open>account\<close> computes; with \<open>double_add\<close> it is the
  arithmetic that Python performs.
\<close>

definition py_sum :: "(real \<Rightarrow> real \<Rightarrow> real) \<Rightarrow> real list \<Rightarrow> real" where
  "py_sum add xs = foldl add 0 xs"

definition add_table :: "(real \<Rightarrow> real \<Rightarrow> real) \<Rightarrow> real \<times> real \<Rightarrow> proc_stats \<Rightarrow> real \<times> real" where
  "add_table add tot ps =
     (add (fst tot) (py_sum add (map (\<lambda>(pc, s). user s) ps)),
      add (snd tot) (py_sum add (map (\<lambda>(pc, s). system s) ps)))"

definition totals :: "(real \<Rightarrow> real \<Rightarrow> real) \<Rightarrow> proc_stats list \<Rightarrow> real \<times> real" where
  "totals add tables = foldl (add_table add) (0, 0) tables"

section \<open>Sampling\<close>

lemma sample_tree_append:
  "sample_tree (ms1 @ ms2) ps = sample_tree ms2 (sample_tree ms1 ps)"
  by (induction ms1 ps rule: sample_tree.induct) simp_all

lemma map_of_sample_tree:
  "map_of (sample_tree ms ps) = map_of ps ++ map_of (rev (sampled ms))"
proof (induction ms ps rule: sample_tree.induct)
  case (1 ps)
  then show ?case by simp
next
  case (2 pc rest ps)
  then show ?case by simp
next
  case (3 pc t rest ps)
  have "map_of (sample_tree rest (AList.update pc t ps))
        = (map_of ps)(pc \<mapsto> t) ++ map_of (rev (sampled rest))"
    by (simp only: "3.IH" update_conv')
  also have "\<dots> = map_of ps ++ (map_of (rev (sampled rest) @ [(pc, t)]))"
    by (simp add: map_add_upd_left fun_eq_iff map_add_def split: option.splits)
  finally show ?case by simp
qed

lemma poll_loop_steady_clock:
  "list_all (\<lambda>tk. job_start \<le> clock tk) tks \<Longrightarrow>
     poll_loop job_start tks ps = Inr (sample_tree (concat (map members tks)) ps)"
  by (induction tks arbitrary: ps) (simp_all add: sleep_interval_def sample_tree_append)

text \<open>
  C7. A member of the tree whose \<^verbatim>\<open>cpu_times()\<close> raises \<^verbatim>\<open>psutil.Error\<close> (it
  exited after it was enumerated) is left out of the pass: the table is the one the pass
  would have built without that member. The pass stores the latest sample of every
  member that could be sampled and keeps every other entry of the table. No outcome of
  the sampling calls makes the polling loop raise: with a clock that does not fall
  behind the start of the job, the loop returns the table built from all its passes.
\<close>

theorem sample_tree_omits_vanished:
  "sample_tree (ms1 @ (pc, PsutilError) # ms2) ps = sample_tree (ms1 @ ms2) ps
   \<and> map_of (sample_tree ms ps) = map_of ps ++ map_of (rev (sampled ms))
   \<and> (list_all (\<lambda>tk. job_start \<le> clock tk) tks \<longrightarrow>
        poll_loop job_start tks ps = Inr (sample_tree (concat (map members tks)) ps))"
  by (simp add: sample_tree_append map_of_sample_tree poll_loop_steady_clock)

theorem sample_tree_omits_vanished_witness:
  "list_all (\<lambda>tk. (100::real) \<le> clock tk)
     [\<lparr>members = [(1, Times \<lparr>user = 1, system = 2\<rparr>), (2, PsutilError),
                  (3, Times \<lparr>user = 3, system = 0\<rparr>)], clock = 100\<rparr>,
      \<lparr>members = [(1, PsutilError), (3, Times \<lparr>user = 4, system = 1\<rparr>)], clock = 101\<rparr>]
   \<and> poll_loop 100
       [\<lparr>members = [(1, Times \<lparr>user = 1, system = 2\<rparr>), (2, PsutilError),
                    (3, Times \<lparr>user = 3, system = 0\<rparr>)], clock = 100\<rparr>,
        \<lparr>members = [(1, PsutilError), (3, Times \<lparr>user = 4, system = 1\<rparr>)], clock = 101\<rparr>]
       []
     = Inr [(1, \<lparr>user = 1, system = 2\<rparr>), (3, \<lparr>user = 4, system = 1\<rparr>)]"
  using sample_tree_omits_vanished
    [of "[]" 2 "[]" "[]" "[]" 100
        "[\<lparr>members = [(1, Times \<lparr>user = 1, system = 2\<rparr>), (2, PsutilError),
                      (3, Times \<lparr>user = 3, system = 0\<rparr>)], clock = 100\<rparr>,
          \<lparr>members = [(1, PsutilError), (3, Times \<lparr>user = 4, system = 1\<rparr>)], clock = 101\<rparr>]"]
  by simp

subsection \<open>The sleep of a tick\<close>








section \<open>The rate limiter\<close>

text \<open>
  C5. A call at time \<open>now\<close> returns true exactly when
  \<open>now - last_ok > period_sec\<close>; it then stores \<open>now\<close> in \<open>last_ok\<close>, and otherwise
  leaves the limiter as it was. So when a call at \<open>t1\<close> is allowed, a call at \<open>t2\<close>
  no more than the period after \<open>t1\<close> is refused and changes nothing, and a call at
  \<open>t3\<close> more than the period after \<open>t1\<close> is allowed again.
\<close>

theorem RateLimiter_gate:
  "(fst (RateLimiter_call rl now) \<longleftrightarrow> now - last_ok rl > period_sec rl)
   \<and> snd (RateLimiter_call rl now)
       = (if now - last_ok rl > period_sec rl then rl\<lparr>last_ok := now\<rparr> else rl)
   \<and> (t1 - last_ok rl > period_sec rl \<and> t2 - t1 \<le> period_sec rl \<and> t3 - t1 > period_sec rl \<longrightarrow>
        RateLimiter_call rl t1 = (True, rl\<lparr>last_ok := t1\<rparr>)
      \<and> RateLimiter_call (rl\<lparr>last_ok := t1\<rparr>) t2 = (False, rl\<lparr>last_ok := t1\<rparr>)
      \<and> RateLimiter_call (rl\<lparr>last_ok := t1\<rparr>) t3 = (True, rl\<lparr>last_ok := t3\<rparr>))"
  by (simp add: RateLimiter_call_def)

theorem RateLimiter_gate_witness:
  "(1700000000 :: real) - last_ok (RateLimiter_init 4) > period_sec (RateLimiter_init 4)
   \<and> (1700000003 :: real) - 1700000000 \<le> period_sec (RateLimiter_init 4)
   \<and> (1700000005 :: real) - 1700000000 > period_sec (RateLimiter_init 4)
   \<and> RateLimiter_call (RateLimiter_init 4) 1700000000
        = (True, \<lparr>period_sec = 4, last_ok = 1700000000\<rparr>)
   \<and> RateLimiter_call \<lparr>period_sec = 4, last_ok = 1700000000\<rparr> 1700000003
        = (False, \<lparr>period_sec = 4, last_ok = 1700000000\<rparr>)
   \<and> RateLimiter_call \<lparr>period_sec = 4, last_ok = 1700000000\<rparr> 1700000005
        = (True, \<lparr>period_sec = 4, last_ok = 1700000005\<rparr>)"
  using RateLimiter_gate [of "RateLimiter_init 4" 0 1700000000 1700000003 1700000005]
  by (simp add: RateLimiter_init_def)

section \<open>The report body\<close>

text \<open>
  C1. With \<open>real_time = 0\<close> the computation of the report body does not return a CPU
  percentage of 0: line 71 divides by \<open>real_time\<close> and raises
  \<^verbatim>\<open>ZeroDivisionError\<close>. The constructor leaves \<open>real_time\<close> at 0, so this is the
  state of a monitor that has not finished a job yet.
\<close>

theorem get_stats_str_zero_real_time:
  "get_stats_str (m\<lparr>real_time := 0\<rparr>) = Inl ZeroDivisionError
   \<and> real_time (ProcessMonitor_init [''sleep''] [''1''] 1700000000) = 0
   \<and> get_stats_str (ProcessMonitor_init [''sleep''] [''1''] 1700000000) = Inl ZeroDivisionError"
  by (simp add: get_stats_str_def ProcessMonitor_init_def update_message_def)

text \<open>
  C10. With an empty list of arguments the computation of the report body raises
  \<^verbatim>\<open>ZeroDivisionError\<close> (line 70 divides by the number of arguments), whatever the
  rest of the monitor holds. A run over no jobs sets the status \<open>COMPLETED\<close> and then
  raises while it builds its final report; the handler of \<^verbatim>\<open>main\<close> raises again, so
  \<^verbatim>\<open>main\<close> ends with the exception and nothing after the first message is posted.
\<close>

theorem empty_job_list_report_raises:
  assumes "args m = []"
  shows "get_stats_str m = Inl ZeroDivisionError
       \<and> fst (run_jobs (ProcessMonitor_init cmd [] t0) [] t1) = Some ZeroDivisionError
       \<and> status (snd (run_jobs (ProcessMonitor_init cmd [] t0) [] t1)) = COMPLETED
       \<and> fst (main cmd [] t0 t1) = Some ZeroDivisionError
       \<and> trace (snd (main cmd [] t0 t1)) = [Post STARTED None]"
  using assms
  by (simp add: main_def run_jobs_def get_stats_str_def ProcessMonitor_init_def
      update_message_def final_status_def)

theorem empty_job_list_report_raises_witness:
  "args (ProcessMonitor_init [''true''] [] 1700000000) = []
   \<and> get_stats_str (ProcessMonitor_init [''true''] [] 1700000000) = Inl ZeroDivisionError
   \<and> fst (main [''true''] [] 1700000000 1700000001) = Some ZeroDivisionError
   \<and> trace (snd (main [''true''] [] 1700000000 1700000001)) = [Post STARTED None]"
proof -
  have h: "args (ProcessMonitor_init [''true''] [] 1700000000) = []"
    by (simp add: ProcessMonitor_init_def update_message_def)
  show ?thesis
    using h empty_job_list_report_raises [OF h, of "[''true'']" 1700000000 1700000001]
    by simp
qed

section \<open>The final report\<close>

text \<open>
  C8. When the first job cannot be launched (\<^verbatim>\<open>Popen\<close> raises, the command does
  not exist), the exception leaves \<^verbatim>\<open>run_jobs\<close> with \<open>real_time\<close> still 0. The
  handler of \<^verbatim>\<open>main\<close> sets the status \<open>CRASHED\<close> and builds the report body, which
  raises \<^verbatim>\<open>ZeroDivisionError\<close>: no report with the status \<open>CRASHED\<close> is posted and
  the user is not pinged. The only message of the run is the first one.
\<close>

theorem main_crash_on_first_job_posts_no_report:
  "main [''nonexistent''] [(''a'', Launch_fails)] 1700000000 1700000001
     = (Some ZeroDivisionError,
        (ProcessMonitor_init [''nonexistent''] [''a''] 1700000000)\<lparr>status := CRASHED\<rparr>)
   \<and> trace (snd (main [''nonexistent''] [(''a'', Launch_fails)] 1700000000 1700000001))
     = [Post STARTED None]"
  by (simp add: main_def run_jobs_def get_stats_str_def ProcessMonitor_init_def update_message_def)

section \<open>The job loop\<close>

subsection \<open>Fields that a pass through the loop body keeps or counts\<close>

lemma ProcessMonitor_init_proc [simp]:
  "(ProcessMonitor_init cmd as now)\<lparr>status := RUNNING, proc := None\<rparr>
     = (ProcessMonitor_init cmd as now)\<lparr>status := RUNNING\<rparr>"
  by (simp add: ProcessMonitor_init_def update_message_def)

lemma update_message_simps [simp]:
  "args (update_message m b) = args m"
  "command (update_message m b) = command m"
  "start (update_message m b) = start m"
  "completed (update_message m b) = completed m"
  "failed (update_message m b) = failed m"
  "user_time (update_message m b) = user_time m"
  "system_time (update_message m b) = system_time m"
  "status (update_message m b) = status m"
  "trace (update_message m b) = trace m @ [Post (status m) b]"
  by (simp_all add: update_message_def)

lemma account_simps [simp]:
  "args (account m rc ps now) = args m"
  "command (account m rc ps now) = command m"
  "start (account m rc ps now) = start m"
  "status (account m rc ps now) = status m"
  "trace (account m rc ps now) = trace m"
  "rate_limiter (account m rc ps now) = rate_limiter m"
  "completed (account m rc ps now) = completed m + 1"
  "failed (account m rc ps now) = failed m + (if rc \<noteq> 0 then 1 else 0)"
  "real_time (account m rc ps now) = now - start m"
  by (simp_all add: account_def)

lemma run_job_frame:
  "args (snd (run_job a ev m)) = args m
   \<and> command (snd (run_job a ev m)) = command m
   \<and> start (snd (run_job a ev m)) = start m"
  by (cases ev) (auto simp: Let_def split: sum.splits prod.splits option.splits)



lemma job_loop_append:
  "job_loop (xs @ ys) m =
     (case job_loop xs m of (Next, m') \<Rightarrow> job_loop ys m' | (c, m') \<Rightarrow> (c, m'))"
  by (induction xs arbitrary: m) (auto split: prod.splits control.splits)

subsection \<open>Jobs that run to their end\<close>

lemma run_job_exits_cleanly:
  assumes "exits_cleanly (start m) ev" and "args m \<noteq> []"
  shows "\<exists>m'. run_job a ev m = (Next, m')
          \<and> completed m' = completed m + 1
          \<and> failed m' = failed m + (if exit_failed ev then 1 else 0)
          \<and> status m' = status m \<and> start m' = start m \<and> args m' = args m"
proof (cases ev)
  case (Exits js tks rc now g)
  with assms(1) have p: "poll_loop js tks [] = Inr (sample_tree (concat (map members tks)) [])"
    and n: "now \<noteq> start m"
    by (simp_all add: poll_loop_steady_clock)
  show ?thesis
    using Exits p n assms(2)
    by (auto simp: Let_def get_stats_str_def RateLimiter_call_def)
qed (use assms in simp_all)

lemma job_loop_exits_cleanly:
  assumes "list_all (\<lambda>(a, ev). exits_cleanly (start m) ev) jobs" and "args m \<noteq> []"
  shows "\<exists>m'. job_loop jobs m = (Next, m')
          \<and> completed m' = completed m + length jobs
          \<and> failed m' = failed m + length (filter (\<lambda>(a, ev). exit_failed ev) jobs)
          \<and> status m' = status m \<and> start m' = start m \<and> args m' = args m"
  using assms
proof (induction jobs arbitrary: m)
  case Nil
  then show ?case by simp
next
  case (Cons j jobs)
  obtain a ev where j: "j = (a, ev)" by (cases j)
  from Cons.prems j have e: "exits_cleanly (start m) ev"
    and r: "list_all (\<lambda>(a, ev). exits_cleanly (start m) ev) jobs" by simp_all
  from run_job_exits_cleanly [OF e Cons.prems(2), of a]
  obtain m1 where m1: "run_job a ev m = (Next, m1)" "completed m1 = completed m + 1"
    "failed m1 = failed m + (if exit_failed ev then 1 else 0)"
    "status m1 = status m" "start m1 = start m" "args m1 = args m" by blast
  from r m1 Cons.prems(2) have "list_all (\<lambda>(a, ev). exits_cleanly (start m1) ev) jobs"
    and "args m1 \<noteq> []" by simp_all
  from Cons.IH [OF this]
  obtain m' where m': "job_loop jobs m1 = (Next, m')" "completed m' = completed m1 + length jobs"
    "failed m' = failed m1 + length (filter (\<lambda>(a, ev). exit_failed ev) jobs)"
    "status m' = status m1" "start m' = start m1" "args m' = args m1" by blast
  from m1 m' j show ?case by simp
qed

lemma main_all_exit:
  assumes "list_all (\<lambda>(a, ev). exits_cleanly t0 ev) jobs" and "jobs \<noteq> []" and "t_end \<noteq> t0"
  shows "fst (main cmd jobs t0 t_end) = None
       \<and> completed (snd (main cmd jobs t0 t_end)) = length jobs
       \<and> failed (snd (main cmd jobs t0 t_end)) = length (filter (\<lambda>(a, ev). exit_failed ev) jobs)
       \<and> status (snd (main cmd jobs t0 t_end))
           = (if length (filter (\<lambda>(a, ev). exit_failed ev) jobs) = 0
              then COMPLETED else COMPLETED_WITH_ERRORS)
       \<and> (\<exists>tr body. trace (snd (main cmd jobs t0 t_end))
             = tr @ [Post (status (snd (main cmd jobs t0 t_end))) (Some body), Ping])"
proof -
  let ?m0 = "(ProcessMonitor_init cmd (map fst jobs) t0)\<lparr>status := RUNNING\<rparr>"
  let ?nf = "length (filter (\<lambda>(a, ev). exit_failed ev) jobs)"
  have s: "start ?m0 = t0" "args ?m0 = map fst jobs" "completed ?m0 = 0" "failed ?m0 = 0"
    by (simp_all add: ProcessMonitor_init_def update_message_def)
  with assms have "list_all (\<lambda>(a, ev). exits_cleanly (start ?m0) ev) jobs" "args ?m0 \<noteq> []"
    by simp_all
  from job_loop_exits_cleanly [OF this] s
  obtain m1 where m1: "job_loop jobs ?m0 = (Next, m1)" "completed m1 = length jobs"
    "failed m1 = ?nf" "start m1 = t0" "args m1 = map fst jobs" by auto
  let ?m2 = "final_status (m1\<lparr>real_time := t_end - start m1\<rparr>)"
  have f: "completed ?m2 = length jobs" "failed ?m2 = ?nf" "args ?m2 = map fst jobs"
    "real_time ?m2 = t_end - t0"
    "status ?m2 = (if ?nf = 0 then COMPLETED else COMPLETED_WITH_ERRORS)"
    using m1 by (simp_all add: final_status_def)
  with assms(2,3) have "\<exists>body. get_stats_str ?m2 = Inr body"
    by (simp add: get_stats_str_def)
  then obtain body where b: "get_stats_str ?m2 = Inr body" ..
  have "run_jobs (ProcessMonitor_init cmd (map fst jobs) t0) jobs t_end
          = (None, update_message ?m2 (Some body))"
    using m1(1) b by (simp add: run_jobs_def)
  then have "main cmd jobs t0 t_end = (None, ping_user (update_message ?m2 (Some body)))"
    by (simp add: main_def)
  then show ?thesis using f by (simp add: ping_user_def)
qed

text \<open>
  C3. When \<^verbatim>\<open>run_jobs\<close> returns without an exception and the number of completed
  jobs is the length of the argument list, the status is \<open>COMPLETED\<close> if no job failed
  and \<open>COMPLETED_WITH_ERRORS\<close> otherwise. In a run of at least one job in which every job
  runs to its end, \<^verbatim>\<open>main\<close> returns, every job is counted as completed, the jobs
  counted as failed are those with an exit status other than 0, the status is set by that
  rule, and the last message posted carries it and is followed by the ping.
\<close>

theorem run_jobs_final_status:
  "(run_jobs m jobs now = (None, m') \<and> completed m' = length (args m') \<longrightarrow>
      status m' = (if failed m' = 0 then COMPLETED else COMPLETED_WITH_ERRORS))
   \<and> (list_all (\<lambda>(a, ev). exits_cleanly t0 ev) js \<and> js \<noteq> [] \<and> t_end \<noteq> t0 \<longrightarrow>
        fst (main cmd js t0 t_end) = None
      \<and> completed (snd (main cmd js t0 t_end)) = length js
      \<and> failed (snd (main cmd js t0 t_end)) = length (filter (\<lambda>(a, ev). exit_failed ev) js)
      \<and> status (snd (main cmd js t0 t_end))
          = (if length (filter (\<lambda>(a, ev). exit_failed ev) js) = 0
             then COMPLETED else COMPLETED_WITH_ERRORS)
      \<and> (\<exists>tr body. trace (snd (main cmd js t0 t_end))
            = tr @ [Post (status (snd (main cmd js t0 t_end))) (Some body), Ping]))"
proof (rule conjI)
  show "run_jobs m jobs now = (None, m') \<and> completed m' = length (args m') \<longrightarrow>
      status m' = (if failed m' = 0 then COMPLETED else COMPLETED_WITH_ERRORS)"
    by (auto simp: run_jobs_def final_status_def Let_def
        split: prod.splits control.splits sum.splits if_splits)
next
  show "list_all (\<lambda>(a, ev). exits_cleanly t0 ev) js \<and> js \<noteq> [] \<and> t_end \<noteq> t0 \<longrightarrow>
        fst (main cmd js t0 t_end) = None
      \<and> completed (snd (main cmd js t0 t_end)) = length js
      \<and> failed (snd (main cmd js t0 t_end)) = length (filter (\<lambda>(a, ev). exit_failed ev) js)
      \<and> status (snd (main cmd js t0 t_end))
          = (if length (filter (\<lambda>(a, ev). exit_failed ev) js) = 0
             then COMPLETED else COMPLETED_WITH_ERRORS)
      \<and> (\<exists>tr body. trace (snd (main cmd js t0 t_end))
            = tr @ [Post (status (snd (main cmd js t0 t_end))) (Some body), Ping])"
    by (intro impI, elim conjE, rule main_all_exit)
qed

theorem run_jobs_final_status_witness:
  "list_all (\<lambda>(a, ev). exits_cleanly 9 ev)
     [(''a'', Exits 10 [] 0 12 12), (''b'', Exits 12 [] 1 15 15)]
   \<and> (15::real) \<noteq> 9
   \<and> fst (run_jobs (ProcessMonitor_init [''run''] [''a'', ''b''] 9)
       [(''a'', Exits 10 [] 0 12 12), (''b'', Exits 12 [] 1 15 15)] 15) = None
   \<and> completed (snd (run_jobs (ProcessMonitor_init [''run''] [''a'', ''b''] 9)
       [(''a'', Exits 10 [] 0 12 12), (''b'', Exits 12 [] 1 15 15)] 15))
     = length (args (snd (run_jobs (ProcessMonitor_init [''run''] [''a'', ''b''] 9)
       [(''a'', Exits 10 [] 0 12 12), (''b'', Exits 12 [] 1 15 15)] 15)))
   \<and> status (snd (run_jobs (ProcessMonitor_init [''run''] [''a'', ''b''] 9)
       [(''a'', Exits 10 [] 0 12 12), (''b'', Exits 12 [] 1 15 15)] 15)) = COMPLETED_WITH_ERRORS
   \<and> fst (main [''run''] [(''a'', Exits 10 [] 0 12 12), (''b'', Exits 12 [] 1 15 15)] 9 15) = None
   \<and> completed (snd (main [''run'']
       [(''a'', Exits 10 [] 0 12 12), (''b'', Exits 12 [] 1 15 15)] 9 15)) = 2
   \<and> failed (snd (main [''run'']
       [(''a'', Exits 10 [] 0 12 12), (''b'', Exits 12 [] 1 15 15)] 9 15)) = 1
   \<and> status (snd (main [''run'']
       [(''a'', Exits 10 [] 0 12 12), (''b'', Exits 12 [] 1 15 15)] 9 15)) = COMPLETED_WITH_ERRORS"
proof -
  let ?js = "[(''a'', Exits 10 [] 0 12 12), (''b'', Exits 12 [] 1 15 15)]"
  let ?m = "ProcessMonitor_init [''run''] [''a'', ''b''] 9"
  let ?r = "run_jobs ?m ?js 15"
  have f: "fst ?r = None" "completed (snd ?r) = 2" "length (args (snd ?r)) = 2"
    "failed (snd ?r) = 1"
    by (simp_all add: run_jobs_def final_status_def
        ProcessMonitor_init_def update_message_def RateLimiter_init_def RateLimiter_call_def
        get_stats_str_def account_def)
  have e: "?r = (None, snd ?r)" using f(1) by (metis prod.collapse)
  have h: "list_all (\<lambda>(a, ev). exits_cleanly 9 ev) ?js" "?js \<noteq> []" "(15::real) \<noteq> 9"
    by simp_all
  from run_jobs_final_status
         [where m = ?m and jobs = ?js and now = 15 and m' = "snd ?r"
            and ?t0.0 = 9 and js = ?js and t_end = 15 and cmd = "[''run'']"]
       e f h
  show ?thesis by simp
qed

subsection \<open>An interrupt during a job\<close>



text \<open>
  An interrupt before the first child is launched finds \<^verbatim>\<open>proc\<close> unbound: line 116
  raises \<^verbatim>\<open>UnboundLocalError\<close>, which leaves \<^verbatim>\<open>run_jobs\<close>; the handler of
  \<^verbatim>\<open>main\<close> sets \<open>CRASHED\<close> and raises while it builds the report body, since no job
  has finished. No child is terminated and nothing after the first message is posted.
\<close>

lemma interrupt_before_first_launch:
  "fst (run_jobs (ProcessMonitor_init [''run''] [''a''] 9) [(''a'', Interrupt_launching)] 15)
     = Some UnboundLocalError
   \<and> fst (main [''run''] [(''a'', Interrupt_launching)] 9 15) = Some ZeroDivisionError
   \<and> status (snd (main [''run''] [(''a'', Interrupt_launching)] 9 15)) = CRASHED
   \<and> trace (snd (main [''run''] [(''a'', Interrupt_launching)] 9 15)) = [Post STARTED None]"
  by (simp add: main_def run_jobs_def get_stats_str_def ProcessMonitor_init_def
      update_message_def)

text \<open>
  An interrupt before the child of a later job is launched finds in \<^verbatim>\<open>proc\<close> the
  child of the job before, which has been waited for: the handler calls
  \<^verbatim>\<open>terminate\<close> on it, sets \<open>INTERRUPTED\<close> and leaves the loop.
\<close>

lemma interrupt_before_later_launch:
  "fst (main [''run''] [(''a'', Exits 10 [] 0 12 12), (''b'', Interrupt_launching)] 9 15) = None
   \<and> status (snd (main [''run''] [(''a'', Exits 10 [] 0 12 12), (''b'', Interrupt_launching)] 9 15))
       = INTERRUPTED
   \<and> completed (snd (main [''run''] [(''a'', Exits 10 [] 0 12 12), (''b'', Interrupt_launching)] 9 15))
       = 1
   \<and> filter (\<lambda>x. x = Launch [''run'', ''b''] \<or> x = Terminate [''run'', ''a''])
        (trace (snd (main [''run''] [(''a'', Exits 10 [] 0 12 12), (''b'', Interrupt_launching)] 9 15)))
       = [Terminate [''run'', ''a'']]"
  by (simp add: main_def run_jobs_def final_status_def get_stats_str_def ping_user_def
      ProcessMonitor_init_def RateLimiter_init_def RateLimiter_call_def
      update_message_def account_def)



subsection \<open>The counters along a run\<close>

lemma update_nonneg_table:
  "0 \<le> user t \<Longrightarrow> 0 \<le> system t \<Longrightarrow> nonneg_table ps \<Longrightarrow> nonneg_table (AList.update pc t ps)"
  by (induction ps) (auto simp: nonneg_table_def)

lemma sample_tree_nonneg_table:
  "list_all (\<lambda>(pc, r). nonneg_result r) ms \<Longrightarrow> nonneg_table ps \<Longrightarrow> nonneg_table (sample_tree ms ps)"
  by (induction ms ps rule: sample_tree.induct)
     (simp_all add: nonneg_result_def update_nonneg_table)

lemma poll_loop_nonneg_table:
  "nonneg_ticks tks \<Longrightarrow> nonneg_table ps \<Longrightarrow> poll_loop job_start tks ps = Inr ps' \<Longrightarrow> nonneg_table ps'"
proof (induction tks arbitrary: ps)
  case Nil
  then show ?case by simp
next
  case (Cons tk tks)
  from Cons.prems(1) have h: "list_all (\<lambda>(pc, r). nonneg_result r) (members tk)" "nonneg_ticks tks"
    by (simp_all add: nonneg_ticks_def)
  from Cons.prems(3) have "poll_loop job_start tks (sample_tree (members tk) ps) = Inr ps'"
    by (simp split: sum.splits)
  with Cons.IH [OF h(2) sample_tree_nonneg_table [OF h(1) Cons.prems(2)]] show ?case by simp
qed

lemma nonneg_table_sums:
  assumes "nonneg_table ps"
  shows "0 \<le> sum_list (map (\<lambda>(pc, s). user s) ps)" and "0 \<le> sum_list (map (\<lambda>(pc, s). system s) ps)"
  using assms by (induction ps) (auto simp: nonneg_table_def)

lemma run_job_step:
  assumes "nonneg_event ev"
  shows "user_time m \<le> user_time (snd (run_job a ev m))
       \<and> system_time m \<le> system_time (snd (run_job a ev m))
       \<and> completed (snd (run_job a ev m)) \<le> completed m + 1
       \<and> failed (snd (run_job a ev m)) + completed m \<le> failed m + completed (snd (run_job a ev m))"
proof (cases ev)
  case (Exits js tks rc now g)
  show ?thesis
  proof (cases "poll_loop js tks []")
    case (Inl e)
    with Exits show ?thesis by simp
  next
    case (Inr ps)
    with assms Exits have "nonneg_table ps"
      using poll_loop_nonneg_table [of tks "[]" js ps] by (simp add: nonneg_table_def)
    from nonneg_table_sums [OF this] Exits Inr show ?thesis
      by (auto simp: Let_def account_def update_message_def split: prod.splits sum.splits)
  qed
next
  case Interrupt_launching
  then show ?thesis by (simp split: option.splits)
next
  case Interrupt_running
  then show ?thesis by simp
next
  case (Interrupt_reporting js tks rc now)
  show ?thesis
  proof (cases "poll_loop js tks []")
    case (Inl e)
    with Interrupt_reporting show ?thesis by simp
  next
    case (Inr ps)
    with assms Interrupt_reporting have "nonneg_table ps"
      using poll_loop_nonneg_table [of tks "[]" js ps] by (simp add: nonneg_table_def)
    from nonneg_table_sums [OF this] Interrupt_reporting Inr show ?thesis
      by (auto simp: Let_def account_def)
  qed
next
  case Launch_fails
  then show ?thesis by simp
qed

lemma job_loop_inv:
  assumes "list_all (\<lambda>(a, ev). nonneg_event ev) jobs"
  shows "user_time m \<le> user_time (snd (job_loop jobs m))
       \<and> system_time m \<le> system_time (snd (job_loop jobs m))
       \<and> completed (snd (job_loop jobs m)) \<le> completed m + length jobs
       \<and> failed (snd (job_loop jobs m)) + completed m \<le> failed m + completed (snd (job_loop jobs m))"
  using assms
proof (induction jobs arbitrary: m)
  case Nil
  then show ?case by simp
next
  case (Cons j jobs)
  obtain a ev where j: "j = (a, ev)" by (cases j)
  obtain c m1 where r: "run_job a ev m = (c, m1)" by (cases "run_job a ev m")
  from Cons.prems j have n: "nonneg_event ev" "list_all (\<lambda>(a, ev). nonneg_event ev) jobs"
    by simp_all
  from run_job_step [OF n(1), of m a] r
  have s: "user_time m \<le> user_time m1" "system_time m \<le> system_time m1"
    "completed m1 \<le> completed m + 1" "failed m1 + completed m \<le> failed m + completed m1"
    by simp_all
  show ?case
  proof (cases c)
    case Next
    with j r have "job_loop (j # jobs) m = job_loop jobs m1" by simp
    with Cons.IH [OF n(2), of m1] s show ?thesis by simp
  next
    case Break
    with j r s show ?thesis by simp
  next
    case (Raise e)
    with j r s show ?thesis by simp
  qed
qed

lemma job_loop_frame:
  "args (snd (job_loop jobs m)) = args m"
proof (induction jobs arbitrary: m)
  case Nil
  then show ?case by simp
next
  case (Cons j jobs)
  obtain a ev where j: "j = (a, ev)" by (cases j)
  obtain c m1 where r: "run_job a ev m = (c, m1)" by (cases "run_job a ev m")
  from run_job_frame [of a ev m] r have "args m1 = args m" by simp
  with Cons.IH [of m1] j r show ?case by (cases c) simp_all
qed

lemma loop_state_mono:
  assumes "list_all (\<lambda>(a, ev). nonneg_event ev) jobs" and "k \<le> k'"
  shows "user_time (loop_state cmd jobs t0 k) \<le> user_time (loop_state cmd jobs t0 k')
       \<and> system_time (loop_state cmd jobs t0 k) \<le> system_time (loop_state cmd jobs t0 k')"
proof -
  let ?m0 = "(ProcessMonitor_init cmd (map fst jobs) t0)\<lparr>status := RUNNING\<rparr>"
  let ?xs = "take k jobs" and ?ys = "drop k (take k' jobs)"
  have t: "take k' jobs = ?xs @ ?ys"
    using assms(2) by (metis append_take_drop_id min.absorb1 take_take)
  have "set ?ys \<subseteq> set jobs"
    by (meson set_drop_subset set_take_subset subset_trans)
  with assms(1) have n: "list_all (\<lambda>(a, ev). nonneg_event ev) ?ys"
    by (auto simp: list_all_iff)
  obtain c m1 where r: "job_loop ?xs ?m0 = (c, m1)" by (cases "job_loop ?xs ?m0")
  show ?thesis
  proof (cases c)
    case Next
    with r have "job_loop (?xs @ ?ys) ?m0 = job_loop ?ys m1"
      by (simp add: job_loop_append)
    with t have "job_loop (take k' jobs) ?m0 = job_loop ?ys m1" by simp
    with job_loop_inv [OF n, of m1] r show ?thesis by (simp add: loop_state_def)
  next
    case Break
    with r have "job_loop (?xs @ ?ys) ?m0 = (c, m1)" by (simp add: job_loop_append)
    with t have "job_loop (take k' jobs) ?m0 = (c, m1)" by simp
    with r show ?thesis by (simp add: loop_state_def)
  next
    case (Raise e)
    with r have "job_loop (?xs @ ?ys) ?m0 = (c, m1)" by (simp add: job_loop_append)
    with t have "job_loop (take k' jobs) ?m0 = (c, m1)" by simp
    with r show ?thesis by (simp add: loop_state_def)
  qed
qed

lemma loop_state_counts:
  assumes "list_all (\<lambda>(a, ev). nonneg_event ev) jobs"
  shows "completed (loop_state cmd jobs t0 k) \<le> length (args (loop_state cmd jobs t0 k))
       \<and> failed (loop_state cmd jobs t0 k) \<le> completed (loop_state cmd jobs t0 k)"
proof -
  let ?m0 = "(ProcessMonitor_init cmd (map fst jobs) t0)\<lparr>status := RUNNING\<rparr>"
  have "set (take k jobs) \<subseteq> set jobs" by (rule set_take_subset)
  with assms have n: "list_all (\<lambda>(a, ev). nonneg_event ev) (take k jobs)"
    by (auto simp: list_all_iff)
  have z: "completed ?m0 = 0" "failed ?m0 = 0" "args ?m0 = map fst jobs"
    by (simp_all add: ProcessMonitor_init_def update_message_def)
  from job_loop_inv [OF n, of ?m0] job_loop_frame [of "take k jobs" ?m0] z
  show ?thesis by (simp add: loop_state_def)
qed

lemma run_job_counts:
  assumes "poll_loop js tks [] = Inr ps"
    and "ev = Exits js tks rc now g \<or> ev = Interrupt_reporting js tks rc now"
  shows "completed (snd (run_job a ev m)) = completed m + 1
       \<and> failed (snd (run_job a ev m)) = failed m + (if rc \<noteq> 0 then 1 else 0)"
  using assms by (auto simp: Let_def split: prod.splits sum.splits)


lemma main_counters:
  "completed (snd (main cmd jobs t0 t_end)) = completed (loop_state cmd jobs t0 (length jobs))
   \<and> failed (snd (main cmd jobs t0 t_end)) = failed (loop_state cmd jobs t0 (length jobs))
   \<and> user_time (snd (main cmd jobs t0 t_end)) = user_time (loop_state cmd jobs t0 (length jobs))
   \<and> system_time (snd (main cmd jobs t0 t_end)) = system_time (loop_state cmd jobs t0 (length jobs))"
  by (auto simp: main_def run_jobs_def loop_state_def final_status_def ping_user_def Let_def
      split: prod.splits control.splits sum.splits option.splits)

text \<open>
  C4. In a run whose samples are well formed, after any number \<open>k\<close> of passes through
  the loop body the number of completed jobs is at most the number of arguments and the
  number of failed jobs at most the number of completed ones; the user and system totals
  after \<open>k\<close> passes are at most those after \<open>k'\<close> passes, for \<open>k \<le> k'\<close>; and
  \<^verbatim>\<open>main\<close> ends with the counters and totals the loop left. A pass for a job whose
  child exits adds 1 to the completed jobs, and 1 to the failed jobs exactly when the exit
  status is not 0.
\<close>

theorem accumulator_invariant:
  assumes "list_all (\<lambda>(a, ev). nonneg_event ev) jobs" and "k \<le> k'"
    and "poll_loop js tks [] = Inr ps"
    and "ev = Exits js tks rc now g \<or> ev = Interrupt_reporting js tks rc now"
  shows "completed (loop_state cmd jobs t0 k) \<le> length (args (loop_state cmd jobs t0 k))
       \<and> failed (loop_state cmd jobs t0 k) \<le> completed (loop_state cmd jobs t0 k)
       \<and> user_time (loop_state cmd jobs t0 k) \<le> user_time (loop_state cmd jobs t0 k')
       \<and> system_time (loop_state cmd jobs t0 k) \<le> system_time (loop_state cmd jobs t0 k')
       \<and> completed (snd (main cmd jobs t0 t_end)) = completed (loop_state cmd jobs t0 (length jobs))
       \<and> failed (snd (main cmd jobs t0 t_end)) = failed (loop_state cmd jobs t0 (length jobs))
       \<and> user_time (snd (main cmd jobs t0 t_end)) = user_time (loop_state cmd jobs t0 (length jobs))
       \<and> system_time (snd (main cmd jobs t0 t_end)) = system_time (loop_state cmd jobs t0 (length jobs))
       \<and> completed (snd (run_job a ev m)) = completed m + 1
       \<and> failed (snd (run_job a ev m)) = failed m + (if rc \<noteq> 0 then 1 else 0)"
  using loop_state_counts [OF assms(1)] loop_state_mono [OF assms(1,2)]
    main_counters [of cmd jobs t0 t_end] run_job_counts [OF assms(3,4)]
  by simp

theorem accumulator_invariant_witness:
  "list_all (\<lambda>(a, ev). nonneg_event ev)
     [(''a'', Exits 10 [\<lparr>members = [(1, Times \<lparr>user = 2, system = 1\<rparr>)], clock = 10\<rparr>] 0 12 12),
      (''b'', Exits 12 [\<lparr>members = [(2, Times \<lparr>user = 3, system = 1\<rparr>)], clock = 12\<rparr>] 1 15 15)]
   \<and> (1::nat) \<le> 2
   \<and> poll_loop 10 [\<lparr>members = [(1, Times \<lparr>user = 2, system = 1\<rparr>)], clock = 10\<rparr>] []
       = Inr [(1, \<lparr>user = 2, system = 1\<rparr>)]
   \<and> completed (loop_state [''run'']
       [(''a'', Exits 10 [\<lparr>members = [(1, Times \<lparr>user = 2, system = 1\<rparr>)], clock = 10\<rparr>] 0 12 12),
        (''b'', Exits 12 [\<lparr>members = [(2, Times \<lparr>user = 3, system = 1\<rparr>)], clock = 12\<rparr>] 1 15 15)]
       9 1) = 1
   \<and> user_time (loop_state [''run'']
       [(''a'', Exits 10 [\<lparr>members = [(1, Times \<lparr>user = 2, system = 1\<rparr>)], clock = 10\<rparr>] 0 12 12),
        (''b'', Exits 12 [\<lparr>members = [(2, Times \<lparr>user = 3, system = 1\<rparr>)], clock = 12\<rparr>] 1 15 15)]
       9 1) = 2
   \<and> user_time (loop_state [''run'']
       [(''a'', Exits 10 [\<lparr>members = [(1, Times \<lparr>user = 2, system = 1\<rparr>)], clock = 10\<rparr>] 0 12 12),
        (''b'', Exits 12 [\<lparr>members = [(2, Times \<lparr>user = 3, system = 1\<rparr>)], clock = 12\<rparr>] 1 15 15)]
       9 2) = 5
   \<and> failed (snd (main [''run'']
       [(''a'', Exits 10 [\<lparr>members = [(1, Times \<lparr>user = 2, system = 1\<rparr>)], clock = 10\<rparr>] 0 12 12),
        (''b'', Exits 12 [\<lparr>members = [(2, Times \<lparr>user = 3, system = 1\<rparr>)], clock = 12\<rparr>] 1 15 15)]
       9 15)) = 1"
  using accumulator_invariant
    [of "[(''a'', Exits 10 [\<lparr>members = [(1, Times \<lparr>user = 2, system = 1\<rparr>)], clock = 10\<rparr>] 0 12 12),
          (''b'', Exits 12 [\<lparr>members = [(2, Times \<lparr>user = 3, system = 1\<rparr>)], clock = 12\<rparr>] 1 15 15)]"
        1 2 10 "[\<lparr>members = [(1, Times \<lparr>user = 2, system = 1\<rparr>)], clock = 10\<rparr>]"
        "[(1, \<lparr>user = 2, system = 1\<rparr>)]"
        "Exits 10 [\<lparr>members = [(1, Times \<lparr>user = 2, system = 1\<rparr>)], clock = 10\<rparr>] 0 12 12"
        0 12 12 "[''run'']" 9 15 "''a''" "ProcessMonitor_init [''run''] [''a'', ''b''] 9"]
  by (simp add: loop_state_def nonneg_ticks_def nonneg_result_def sleep_interval_def
      ProcessMonitor_init_def update_message_def RateLimiter_init_def RateLimiter_call_def
      get_stats_str_def account_def)

section \<open>The totals and the order of the jobs\<close>

subsection \<open>Double-precision addition on the doubles nearest to 0.1, 0.2 and 0.3\<close>

lemma double_round_binade:
  assumes "2 powi e \<le> \<bar>x\<bar>" and "\<bar>x\<bar> < 2 powi (e + 1)"
  shows "double_round x = round_at e x"
proof -
  have p: "0 < \<bar>x\<bar>" using assms(1) by (smt (verit) zero_less_power_int)
  have a: "(2::real) powr (of_int e) = 2 powi e"
    by (simp add: powr_real_of_int')
  have b: "(2::real) powr (of_int e + 1) = 2 powi (e + 1)"
    using powr_real_of_int' [of 2 "e + 1"] by simp
  from assms a b p have "\<lfloor>log 2 \<bar>x\<bar>\<rfloor> = e"
    using floor_log_eq_powr_iff [of "\<bar>x\<bar>" 2 e] by simp
  with p show ?thesis by (auto simp: double_round_def)
qed

lemma add_01_02: "double_add (3602879701896397 / 2 ^ 55) (3602879701896397 / 2 ^ 54) = 5404319552844596 / 2 ^ 54"
  unfolding double_add_def
  by (subst double_round_binade [of "-2"])
     (simp_all add: round_at_def round_ties_even_def power_int_minus field_simps)

lemma add_03_03: "double_add (5404319552844596 / 2 ^ 54) (5404319552844595 / 2 ^ 54) = 5404319552844596 / 2 ^ 53"
  unfolding double_add_def
  by (subst double_round_binade [of "-1"])
     (simp_all add: round_at_def round_ties_even_def power_int_minus field_simps)

lemma add_03_02: "double_add (5404319552844595 / 2 ^ 54) (3602879701896397 / 2 ^ 54) = 1 / 2"
  unfolding double_add_def
  by (subst double_round_binade [of "-1"])
     (simp_all add: round_at_def round_ties_even_def power_int_minus field_simps)

lemma add_05_01: "double_add (1 / 2) (3602879701896397 / 2 ^ 55) = 5404319552844595 / 2 ^ 53"
  unfolding double_add_def
  by (subst double_round_binade [of "-1"])
     (simp_all add: round_at_def round_ties_even_def power_int_minus field_simps)

lemma add_0_01: "double_add 0 (3602879701896397 / 2 ^ 55) = 3602879701896397 / 2 ^ 55"
  unfolding double_add_def
  by (subst double_round_binade [of "-4"])
     (simp_all add: round_at_def round_ties_even_def power_int_minus field_simps)

lemma add_0_02: "double_add 0 (3602879701896397 / 2 ^ 54) = 3602879701896397 / 2 ^ 54"
  unfolding double_add_def
  by (subst double_round_binade [of "-3"])
     (simp_all add: round_at_def round_ties_even_def power_int_minus field_simps)

lemma add_0_03: "double_add 0 (5404319552844595 / 2 ^ 54) = 5404319552844595 / 2 ^ 54"
  unfolding double_add_def
  by (subst double_round_binade [of "-2"])
     (simp_all add: round_at_def round_ties_even_def power_int_minus field_simps)

lemma add_0_0: "double_add 0 0 = 0"
  by (simp add: double_add_def double_round_def)

text \<open>
  C9, as stated, fails. Three jobs leave tables whose user times are the doubles nearest
  to 0.1, 0.2 and 0.3. Run in this order, the user total is 0.6000000000000001; run in
  the opposite order, it is 0.6.
\<close>

theorem totals_order_counterexample:
  "fst (totals double_add
          [[(1, \<lparr>user = 3602879701896397 / 2 ^ 55, system = 0\<rparr>)],
           [(2, \<lparr>user = 3602879701896397 / 2 ^ 54, system = 0\<rparr>)],
           [(3, \<lparr>user = 5404319552844595 / 2 ^ 54, system = 0\<rparr>)]])
     = 5404319552844596 / 2 ^ 53
   \<and> fst (totals double_add
          [[(3, \<lparr>user = 5404319552844595 / 2 ^ 54, system = 0\<rparr>)],
           [(2, \<lparr>user = 3602879701896397 / 2 ^ 54, system = 0\<rparr>)],
           [(1, \<lparr>user = 3602879701896397 / 2 ^ 55, system = 0\<rparr>)]])
     = 5404319552844595 / 2 ^ 53
   \<and> totals double_add
          [[(1, \<lparr>user = 3602879701896397 / 2 ^ 55, system = 0\<rparr>)],
           [(2, \<lparr>user = 3602879701896397 / 2 ^ 54, system = 0\<rparr>)],
           [(3, \<lparr>user = 5404319552844595 / 2 ^ 54, system = 0\<rparr>)]]
     \<noteq> totals double_add
          [[(3, \<lparr>user = 5404319552844595 / 2 ^ 54, system = 0\<rparr>)],
           [(2, \<lparr>user = 3602879701896397 / 2 ^ 54, system = 0\<rparr>)],
           [(1, \<lparr>user = 3602879701896397 / 2 ^ 55, system = 0\<rparr>)]]"
proof -
  have a: "fst (totals double_add
          [[(1, \<lparr>user = 3602879701896397 / 2 ^ 55, system = 0\<rparr>)],
           [(2, \<lparr>user = 3602879701896397 / 2 ^ 54, system = 0\<rparr>)],
           [(3, \<lparr>user = 5404319552844595 / 2 ^ 54, system = 0\<rparr>)]])
     = 5404319552844596 / 2 ^ 53"
    by (simp add: totals_def add_table_def py_sum_def
        add_0_01 add_0_02 add_0_03 add_0_0 add_01_02 add_03_03 del: power_numeral)
  have b: "fst (totals double_add
          [[(3, \<lparr>user = 5404319552844595 / 2 ^ 54, system = 0\<rparr>)],
           [(2, \<lparr>user = 3602879701896397 / 2 ^ 54, system = 0\<rparr>)],
           [(1, \<lparr>user = 3602879701896397 / 2 ^ 55, system = 0\<rparr>)]])
     = 5404319552844595 / 2 ^ 53"
    by (simp add: totals_def add_table_def py_sum_def
        add_0_01 add_0_02 add_0_03 add_0_0 add_03_02 add_05_01 del: power_numeral)
  have "(5404319552844596 / 2 ^ 53 :: real) \<noteq> 5404319552844595 / 2 ^ 53" by simp
  with a b show ?thesis by metis
qed

subsection \<open>Exact addition\<close>

lemma py_sum_exact: "foldl (+) a xs = a + sum_list xs" for a :: real
  by (induction xs arbitrary: a) simp_all

lemma totals_exact_fold:
  "foldl (add_table (+)) (u, s) tables
     = (u + sum_list (map (\<lambda>ps. sum_list (map (\<lambda>(pc, s). user s) ps)) tables),
        s + sum_list (map (\<lambda>ps. sum_list (map (\<lambda>(pc, s). system s) ps)) tables))"
  by (induction tables arbitrary: u s) (simp_all add: add_table_def py_sum_def py_sum_exact)

lemma run_job_totals:
  assumes "exits_cleanly (start m) ev" and "args m \<noteq> []"
  shows "user_time (snd (run_job a ev m))
           = user_time m + sum_list (map (\<lambda>(pc, s). user s) (exit_table ev))
       \<and> system_time (snd (run_job a ev m))
           = system_time m + sum_list (map (\<lambda>(pc, s). system s) (exit_table ev))"
proof (cases ev)
  case (Exits js tks rc now g)
  with assms(1) have p: "poll_loop js tks [] = Inr (sample_tree (concat (map members tks)) [])"
    and n: "now \<noteq> start m"
    by (simp_all add: poll_loop_steady_clock)
  show ?thesis
    using Exits p n assms(2)
    by (auto simp: Let_def get_stats_str_def RateLimiter_call_def account_def)
qed (use assms in simp_all)

lemma job_loop_totals:
  assumes "list_all (\<lambda>(a, ev). exits_cleanly (start m) ev) jobs" and "args m \<noteq> []"
  shows "user_time (snd (job_loop jobs m))
           = user_time m
             + sum_list (map (\<lambda>(a, ev). sum_list (map (\<lambda>(pc, s). user s) (exit_table ev))) jobs)
       \<and> system_time (snd (job_loop jobs m))
           = system_time m
             + sum_list (map (\<lambda>(a, ev). sum_list (map (\<lambda>(pc, s). system s) (exit_table ev))) jobs)"
  using assms
proof (induction jobs arbitrary: m)
  case Nil
  then show ?case by simp
next
  case (Cons j jobs)
  obtain a ev where j: "j = (a, ev)" by (cases j)
  from Cons.prems j have e: "exits_cleanly (start m) ev"
    and r: "list_all (\<lambda>(a, ev). exits_cleanly (start m) ev) jobs" by simp_all
  from run_job_exits_cleanly [OF e Cons.prems(2), of a]
  obtain m1 where m1: "run_job a ev m = (Next, m1)" "start m1 = start m" "args m1 = args m"
    by blast
  from run_job_totals [OF e Cons.prems(2), of a] m1
  have t: "user_time m1 = user_time m + sum_list (map (\<lambda>(pc, s). user s) (exit_table ev))"
    "system_time m1 = system_time m + sum_list (map (\<lambda>(pc, s). system s) (exit_table ev))"
    by simp_all
  from r m1 Cons.prems(2) have "list_all (\<lambda>(a, ev). exits_cleanly (start m1) ev) jobs"
    and "args m1 \<noteq> []" by simp_all
  from Cons.IH [OF this] m1 j t show ?case by simp
qed

lemma main_totals:
  assumes "list_all (\<lambda>(a, ev). exits_cleanly t0 ev) jobs" and "jobs \<noteq> []"
  shows "(user_time (snd (main cmd jobs t0 t_end)), system_time (snd (main cmd jobs t0 t_end)))
           = totals (+) (map (\<lambda>(a, ev). exit_table ev) jobs)"
proof -
  let ?m0 = "(ProcessMonitor_init cmd (map fst jobs) t0)\<lparr>status := RUNNING\<rparr>"
  have s: "start ?m0 = t0" "args ?m0 = map fst jobs" "user_time ?m0 = 0" "system_time ?m0 = 0"
    by (simp_all add: ProcessMonitor_init_def update_message_def)
  with assms have "list_all (\<lambda>(a, ev). exits_cleanly (start ?m0) ev) jobs" "args ?m0 \<noteq> []"
    by simp_all
  from job_loop_totals [OF this] s main_counters [of cmd jobs t0 t_end]
  show ?thesis
    by (simp add: loop_state_def totals_def totals_exact_fold comp_def case_prod_unfold)
qed

text \<open>
  C9, amended. In a run of at least one job in which every job runs to its end, the user
  and system totals at the end of \<^verbatim>\<open>main\<close> are the fold of lines 109-110 over the
  tables of the jobs. When the additions are exact, a run of the same jobs with the same
  tables in any other order ends with the same totals.
\<close>

theorem totals_order_independent_exact:
  assumes "mset jobs' = mset jobs"
    and "list_all (\<lambda>(a, ev). exits_cleanly t0 ev) jobs" and "jobs \<noteq> []"
  shows "(user_time (snd (main cmd jobs t0 t_end)), system_time (snd (main cmd jobs t0 t_end)))
           = totals (+) (map (\<lambda>(a, ev). exit_table ev) jobs)
       \<and> user_time (snd (main cmd jobs' t0 t_end')) = user_time (snd (main cmd jobs t0 t_end))
       \<and> system_time (snd (main cmd jobs' t0 t_end')) = system_time (snd (main cmd jobs t0 t_end))"
proof -
  from assms(1) have "set jobs' = set jobs" by (rule mset_eq_setD)
  with assms(2) have c: "list_all (\<lambda>(a, ev). exits_cleanly t0 ev) jobs'"
    by (simp add: list_all_iff)
  from assms(1,3) have n: "jobs' \<noteq> []" by auto
  have p: "sum_list (map f jobs') = sum_list (map f jobs)" for f :: "string \<times> job_event \<Rightarrow> real"
    using assms(1) by (metis mset_map sum_mset_sum_list)
  have "totals (+) (map (\<lambda>(a, ev). exit_table ev) jobs')
          = totals (+) (map (\<lambda>(a, ev). exit_table ev) jobs)"
    by (simp add: totals_def totals_exact_fold comp_def p)
  with main_totals [OF assms(2,3), of cmd t_end] main_totals [OF c n, of cmd t_end']
  show ?thesis by (metis fst_conv snd_conv)
qed


theorem totals_order_independent_exact_witness:
  "mset [(''b'', Exits 12 [\<lparr>members = [(2, Times \<lparr>user = 3, system = 1\<rparr>)], clock = 12\<rparr>] 1 15 15),
         (''a'', Exits 10 [\<lparr>members = [(1, Times \<lparr>user = 2, system = 1\<rparr>)], clock = 10\<rparr>] 0 12 12)]
     = mset [(''a'', Exits 10 [\<lparr>members = [(1, Times \<lparr>user = 2, system = 1\<rparr>)], clock = 10\<rparr>] 0 12 12),
             (''b'', Exits 12 [\<lparr>members = [(2, Times \<lparr>user = 3, system = 1\<rparr>)], clock = 12\<rparr>] 1 15 15)]
   \<and> list_all (\<lambda>(a, ev). exits_cleanly 9 ev)
        [(''a'', Exits 10 [\<lparr>members = [(1, Times \<lparr>user = 2, system = 1\<rparr>)], clock = 10\<rparr>] 0 12 12),
         (''b'', Exits 12 [\<lparr>members = [(2, Times \<lparr>user = 3, system = 1\<rparr>)], clock = 12\<rparr>] 1 15 15)]
   \<and> user_time (snd (main [''run'']
        [(''a'', Exits 10 [\<lparr>members = [(1, Times \<lparr>user = 2, system = 1\<rparr>)], clock = 10\<rparr>] 0 12 12),
         (''b'', Exits 12 [\<lparr>members = [(2, Times \<lparr>user = 3, system = 1\<rparr>)], clock = 12\<rparr>] 1 15 15)]
        9 15)) = 5
   \<and> user_time (snd (main [''run'']
        [(''b'', Exits 12 [\<lparr>members = [(2, Times \<lparr>user = 3, system = 1\<rparr>)], clock = 12\<rparr>] 1 15 15),
         (''a'', Exits 10 [\<lparr>members = [(1, Times \<lparr>user = 2, system = 1\<rparr>)], clock = 10\<rparr>] 0 12 12)]
        9 15)) = 5
   \<and> system_time (snd (main [''run'']
        [(''b'', Exits 12 [\<lparr>members = [(2, Times \<lparr>user = 3, system = 1\<rparr>)], clock = 12\<rparr>] 1 15 15),
         (''a'', Exits 10 [\<lparr>members = [(1, Times \<lparr>user = 2, system = 1\<rparr>)], clock = 10\<rparr>] 0 12 12)]
        9 15)) = 2"
proof -
  let ?a = "(''a'', Exits 10 [\<lparr>members = [(1, Times \<lparr>user = 2, system = 1\<rparr>)], clock = 10\<rparr>] 0 12 12)"
  let ?b = "(''b'', Exits 12 [\<lparr>members = [(2, Times \<lparr>user = 3, system = 1\<rparr>)], clock = 12\<rparr>] 1 15 15)"
  have m: "mset [?b, ?a] = mset [?a, ?b]" by (simp add: add_mset_commute)
  have c: "list_all (\<lambda>(a, ev). exits_cleanly 9 ev) [?a, ?b]" by simp
  have n: "[?a, ?b] \<noteq> []" by simp
  from totals_order_independent_exact [OF m c n, of "[''run'']" 15 15] m c
  show ?thesis
    by (simp add: totals_def add_table_def py_sum_def)
qed

end
